theory Spec2Isabelle
  imports Main "HOL-Library.Sublist"
begin

section \<open>Data model of \<^verbatim>\<open>beet/toolchain/generator.py\<close>\<close>

text \<open>
  A scope is a tuple of arbitrary Python values. The code only ever asks two things of a
  segment: whether it is a non-empty \<^verbatim>\<open>str\<close> (\<^verbatim>\<open>get_prefix\<close>), and whether two tuples
  of segments are equal (they are dictionary keys of the registry). Three kinds of segment
  are kept apart: strings, class objects (\<^verbatim>\<open>self[file_type]\<close> in \<^verbatim>\<open>__call__\<close>) and integers.
\<close>

datatype part = Str string | Cls string | Num int

text \<open>
  Exceptions are values. \<open>KeyError\<close>, \<open>ValueError\<close>, \<open>IndexError\<close> and \<open>TypeError\<close> are the
  Python exceptions the modelled code raises; \<open>Raised\<close> is any exception of a caller's
  body; \<open>InvalidArgument\<close> is the error kind named by the specification's taxonomy (no
  statement of the source raises it); \<open>Unsupported\<close> marks inputs whose behaviour this
  development does not describe.
\<close>

datatype error =
    KeyError string
  | ValueError
  | IndexError
  | TypeError
  | InvalidArgument
  | Unsupported
  | Raised string

text \<open>
  Modelled from the spec: the container collaborator (\<^verbatim>\<open>ResourcePack\<close>, \<^verbatim>\<open>DataPack\<close>,
  \<^verbatim>\<open>beet.library\<close>) is not part of the sources. A container maps an artifact type and a key
  to an artifact. Section 4.4 and section 6 of the specification give its \<^verbatim>\<open>merge\<close> as
  "artifact-by-artifact ... last-write-wins or structural merge per artifact kind", where
  "merging twice would duplicate list-like artifact content": \<open>Plain\<close> artifacts are
  replaced, \<open>ListLike\<close> artifacts are appended.
\<close>

datatype artifact = Plain string | ListLike "string list"

type_synonym pack = "(string \<times> string) \<rightharpoonup> artifact"

fun merge_artifact :: "artifact \<Rightarrow> artifact \<Rightarrow> artifact" where
  "merge_artifact (ListLike xs) (ListLike ys) = ListLike (xs @ ys)"
| "merge_artifact old new = new"

definition merge_pack :: "pack \<Rightarrow> pack \<Rightarrow> pack" where
  "merge_pack p q =
     (\<lambda>k. case q k of
            None \<Rightarrow> p k
          | Some b \<Rightarrow> (case p k of None \<Rightarrow> Some b | Some a \<Rightarrow> Some (merge_artifact a b)))"

text \<open>
  Modelled from the spec: \<^verbatim>\<open>load(path)\<close> and \<^verbatim>\<open>save(path, overwrite)\<close> of the container
  collaborator. A stored snapshot is the content of a container; loading puts the entries
  of the snapshot into the container, and nothing when no snapshot is stored at the path;
  saving with \<^verbatim>\<open>overwrite=True\<close> replaces what the path held.
\<close>

definition load_pack :: "pack \<Rightarrow> pack option \<Rightarrow> pack" where
  "load_pack p snapshot = (case snapshot of None \<Rightarrow> p | Some q \<Rightarrow> p ++ q)"

text \<open>
  Modelled from the spec: a cache bucket (\<^verbatim>\<open>ctx.cache[name]\<close>, section 6) exposes a small
  string-keyed metadata map \<^verbatim>\<open>json\<close> and a directory of snapshots.
\<close>

record bucket =
  json :: "string \<rightharpoonup> string"
  directory :: "string \<rightharpoonup> pack"

text \<open>
  The part of \<^verbatim>\<open>Context\<close> the generator reads. \<open>stable_hash\<close> (from \<^verbatim>\<open>.utils\<close>), the two
  \<^verbatim>\<open>namespace_type.field_map\<close> tables and the template renderer are not part of the
  sources and are taken as parameters.
\<close>

record beet_context =
  project_id :: string
  meta :: "string \<rightharpoonup> string"
  stable_hash :: "string \<Rightarrow> bool \<Rightarrow> string"
  data_field_map :: "string \<rightharpoonup> string"
  assets_field_map :: "string \<rightharpoonup> string"
  render_file :: "string \<Rightarrow> string \<Rightarrow> artifact \<Rightarrow> artifact"

text \<open>
  The dataclass \<^verbatim>\<open>Generator\<close>. The registry and the four containers are shared mutable
  objects; the fields hold their addresses in the store below, so that aliasing
  (\<^verbatim>\<open>self.assets is not self.parent_assets\<close>) is address comparison.
\<close>

record generator =
  ctx :: beet_context
  scope :: "part list"
  registry :: nat
  assets :: nat
  data :: nat
  parent_assets :: nat
  parent_data :: nat

type_synonym registry_map = "part list \<rightharpoonup> int"

text \<open>
  The store: the registries (\<^verbatim>\<open>defaultdict(int)\<close>), the resource packs and the data packs
  by address, the next unused address, the root generator \<^verbatim>\<open>ctx.generate\<close> (an object whose
  fields \<^verbatim>\<open>push\<close> assigns), the build-wide cache \<^verbatim>\<open>ctx.cache\<close>, and the other
  \<^verbatim>\<open>Generator\<close> objects by address, with the next unused address for them.
\<close>

record state =
  registries :: "nat \<Rightarrow> registry_map"
  rpacks :: "nat \<Rightarrow> pack"
  dpacks :: "nat \<Rightarrow> pack"
  next_ref :: nat
  root :: generator
  cache_store :: "string \<Rightarrow> bucket"
  generators :: "nat \<Rightarrow> generator"
  next_generator :: nat

text \<open>
  The \<^verbatim>\<open>hash\<close> argument of \<^verbatim>\<open>format\<close>, \<^verbatim>\<open>path\<close> and \<^verbatim>\<open>__call__\<close>: a value, or a callable
  (\<^verbatim>\<open>lambda: file_instance.ensure_serialized()\<close>) that \<^verbatim>\<open>stable_hash\<close> calls; a callable may
  have effects on the store.
\<close>

datatype hash_arg = HVal string | HCall "state \<Rightarrow> string \<times> state"

section \<open>Scope extension\<close>

text \<open>
  \<^verbatim>\<open>Generator.__getitem__\<close>. The methods below read the fields of \<^verbatim>\<open>self\<close> and assign to none
  of them, so they take the generator as a value. \<open>getitem\<close> gives the fields that
  \<^verbatim>\<open>__getitem__\<close> passes to the constructor.
\<close>

definition getitem :: "generator \<Rightarrow> part \<Rightarrow> generator" where
  "getitem self key =
     \<lparr> ctx = ctx self,
       scope = scope self @ [key],
       registry = registry self,
       assets = assets self,
       data = data self,
       parent_assets = parent_assets self,
       parent_data = parent_data self \<rparr>"

text \<open>
  The method call \<^verbatim>\<open>self[key]\<close> on an object of the store. The receiver is the root generator
  or the object at an address; \<^verbatim>\<open>self.__class__(...)\<close> constructs a new object, which gets
  the next unused address, and the method returns a reference to it. An object exists when
  it is the root or its address is below the next unused one.
\<close>

datatype gref = Root | Obj nat

fun deref :: "state \<Rightarrow> gref \<Rightarrow> generator" where
  "deref s Root = root s"
| "deref s (Obj a) = generators s a"

fun allocated :: "state \<Rightarrow> gref \<Rightarrow> bool" where
  "allocated s Root = True"
| "allocated s (Obj a) = (a < next_generator s)"

definition getitem_object :: "gref \<Rightarrow> part \<Rightarrow> state \<Rightarrow> gref \<times> state" where
  "getitem_object self key s =
     (Obj (next_generator s),
      s\<lparr>generators := (generators s)(next_generator s := getitem (deref s self) key),
        next_generator := Suc (next_generator s)\<rparr>)"

section \<open>Counters\<close>

text \<open>
  \<^verbatim>\<open>Generator.get_increment\<close>. Reading a missing key of a \<^verbatim>\<open>defaultdict(int)\<close> gives 0.
\<close>

definition increment_key :: "generator \<Rightarrow> part list \<Rightarrow> part list" where
  "increment_key self key = Str (project_id (ctx self)) # scope self @ key"

definition registry_get :: "registry_map \<Rightarrow> part list \<Rightarrow> int" where
  "registry_get r k = (case r k of None \<Rightarrow> 0 | Some n \<Rightarrow> n)"

definition get_increment :: "generator \<Rightarrow> part list \<Rightarrow> state \<Rightarrow> int \<times> state" where
  "get_increment self key s =
     (let k = increment_key self key;
          r = registries s (registry self);
          count = registry_get r k
      in (count, s\<lparr>registries := (registries s)(registry self := r(k \<mapsto> count + 1))\<rparr>))"

text \<open>A sequence of \<^verbatim>\<open>get_increment\<close> calls, in call order, with the values returned.\<close>

fun get_increments :: "(generator \<times> part list) list \<Rightarrow> state \<Rightarrow> int list \<times> state" where
  "get_increments [] s = ([], s)"
| "get_increments ((g, key) # calls) s =
     (let (n, s1) = get_increment g key s;
          (ns, s2) = get_increments calls s1
      in (n # ns, s2))"



section \<open>Formatting\<close>

text \<open>\<^verbatim>\<open>str(n)\<close> of a Python integer, as \<^verbatim>\<open>format(n, "")\<close> gives it.\<close>

definition digit_char :: "nat \<Rightarrow> char" where
  "digit_char d = ''0123456789'' ! d"

fun str_nat :: "nat \<Rightarrow> string" where
  "str_nat n = (if n < 10 then [digit_char n] else str_nat (n div 10) @ [digit_char (n mod 10)])"

declare str_nat.simps [simp del]

definition str_int :: "int \<Rightarrow> string" where
  "str_int i = (if i < 0 then CHR ''-'' # str_nat (nat (- i)) else str_nat (nat i))"

text \<open>
  \<^verbatim>\<open>str.format_map\<close>. The template is read from left to right: \<^verbatim>\<open>{{\<close> and \<^verbatim>\<open>}}\<close> are the
  literal braces, \<^verbatim>\<open>{name}\<close> is a replacement field, a single \<^verbatim>\<open>}\<close> or an unclosed \<^verbatim>\<open>{\<close> is
  a \<^verbatim>\<open>ValueError\<close>, and so is a field whose name is empty or a number (a positional field,
  which \<^verbatim>\<open>format_map\<close> cannot fill). Fields with a conversion (\<^verbatim>\<open>!\<close>), a format
  specification (\<^verbatim>\<open>:\<close>), an attribute or index (\<^verbatim>\<open>.\<close>, \<^verbatim>\<open>[\<close>) or a nested brace are
  \<open>Unsupported\<close>. Python reads the template lazily, so the fields to the left of a malformed
  place are substituted (and their values computed) before the error is raised: the
  malformed place is a token of its own.
\<close>

datatype token = Lit char | Field string | Bad error

definition field_token :: "string \<Rightarrow> token" where
  "field_token name =
     (if name = [] \<or> (\<forall>c \<in> set name. c \<in> set ''0123456789'') then Bad ValueError
      else Field name)"

fun lex :: "string \<Rightarrow> token list"
  and lex_field :: "string \<Rightarrow> string \<Rightarrow> token list" where
  "lex [] = []"
| "lex (c # cs) =
     (if c = CHR ''{'' then
        (case cs of
           [] \<Rightarrow> [Bad ValueError]
         | d # r \<Rightarrow> if d = CHR ''{'' then Lit c # lex r else lex_field [] cs)
      else if c = CHR ''}'' then
        (case cs of
           [] \<Rightarrow> [Bad ValueError]
         | d # r \<Rightarrow> if d = CHR ''}'' then Lit c # lex r else [Bad ValueError])
      else Lit c # lex cs)"
| "lex_field acc [] = [Bad ValueError]"
| "lex_field acc (c # cs) =
     (if c = CHR ''}'' then field_token (rev acc) # lex cs
      else if c \<in> set ''{!:.['' then [Bad Unsupported]
      else lex_field (c # acc) cs)"

text \<open>
  Modelled from the spec: \<^verbatim>\<open>LazyFormat\<close> (from \<^verbatim>\<open>.utils\<close>) is not part of the sources. By
  section 4.2 it "wraps a zero-argument computation", and the formatting engine invokes the
  computation when the placeholder is substituted, and not otherwise. A value of the format
  environment is a plain string (\<open>Now\<close>) or such a wrapper (\<open>Lazy\<close>); the computation may
  change the store (\<^verbatim>\<open>get_increment\<close> does).
\<close>

datatype fvalue = Now string | Lazy "state \<Rightarrow> string \<times> state"

fun force :: "fvalue \<Rightarrow> state \<Rightarrow> string \<times> state" where
  "force (Now v) s = (v, s)"
| "force (Lazy f) s = f s"

fun format_tokens ::
  "(string \<rightharpoonup> fvalue) \<Rightarrow> token list \<Rightarrow> state \<Rightarrow> (error + string) \<times> state" where
  "format_tokens env [] s = (Inr [], s)"
| "format_tokens env (Lit c # ts) s =
     (case format_tokens env ts s of
        (Inl e, s') \<Rightarrow> (Inl e, s')
      | (Inr out, s') \<Rightarrow> (Inr (c # out), s'))"
| "format_tokens env (Field name # ts) s =
     (case env name of
        None \<Rightarrow> (Inl (KeyError name), s)
      | Some v \<Rightarrow>
          (case force v s of
             (txt, s1) \<Rightarrow>
               (case format_tokens env ts s1 of
                  (Inl e, s') \<Rightarrow> (Inl e, s')
                | (Inr out, s') \<Rightarrow> (Inr (txt @ out), s'))))"
| "format_tokens env (Bad e # ts) s = (Inl e, s)"

definition format_map ::
  "string \<Rightarrow> (string \<rightharpoonup> fvalue) \<Rightarrow> state \<Rightarrow> (error + string) \<times> state" where
  "format_map fmt env s = format_tokens env (lex fmt) s"

text \<open>\<^verbatim>\<open>Generator.get_prefix\<close>.\<close>

fun is_prefix_part :: "part \<Rightarrow> bool" where
  "is_prefix_part (Str x) = (x \<noteq> [])"
| "is_prefix_part _ = False"

fun part_text :: "part \<Rightarrow> string" where
  "part_text (Str x) = x"
| "part_text _ = []"

definition get_prefix :: "generator \<Rightarrow> string \<Rightarrow> string" where
  "get_prefix self separator =
     (let prefix =
        (case meta (ctx self) ''generate_prefix'' of
           None \<Rightarrow> []
         | Some prefix_value \<Rightarrow> if prefix_value \<noteq> [] then [Str prefix_value] else [])
      in concat (map (\<lambda>p. part_text p @ separator) (filter is_prefix_part (prefix @ scope self))))"

text \<open>
  Modelled from the spec: \<^verbatim>\<open>stable_hash\<close> (from \<^verbatim>\<open>.utils\<close>) is not part of the sources. By
  section 4.1 it is a pure function from a value to a digest, in a full and a short form:
  the parameter \<open>stable_hash\<close> of the context. \<^verbatim>\<open>__call__\<close> passes it a lambda as the value
  ("a lazy call that serializes the artifact", section 4.3), so a callable value is called
  and its result is digested.
\<close>

fun hash_value :: "beet_context \<Rightarrow> hash_arg \<Rightarrow> bool \<Rightarrow> state \<Rightarrow> string \<times> state" where
  "hash_value c (HVal v) short s = (stable_hash c v short, s)"
| "hash_value c (HCall f) short s = (case f s of (v, s') \<Rightarrow> (stable_hash c v short, s'))"

text \<open>\<^verbatim>\<open>Generator.format\<close>: the environment, then \<^verbatim>\<open>fmt.format_map(env)\<close>.\<close>

definition format_env :: "generator \<Rightarrow> string \<Rightarrow> hash_arg option \<Rightarrow> (string \<rightharpoonup> fvalue)" where
  "format_env self fmt hash =
     (let env =
        [''namespace'' \<mapsto>
            Now (case meta (ctx self) ''generate_namespace'' of
                   None \<Rightarrow> project_id (ctx self)
                 | Some v \<Rightarrow> v),
         ''path'' \<mapsto> Lazy (\<lambda>s. (get_prefix self ''/'', s)),
         ''scope'' \<mapsto> Lazy (\<lambda>s. (get_prefix self ''.'', s)),
         ''incr'' \<mapsto>
            Lazy (\<lambda>s. case get_increment self [Str fmt] s of (n, s') \<Rightarrow> (str_int n, s'))]
      in case hash of
           None \<Rightarrow> env
         | Some value \<Rightarrow>
             env(''hash'' \<mapsto> Lazy (hash_value (ctx self) value False),
                 ''short_hash'' \<mapsto> Lazy (hash_value (ctx self) value True)))"

definition format ::
  "generator \<Rightarrow> string \<Rightarrow> hash_arg option \<Rightarrow> state \<Rightarrow> (error + string) \<times> state" where
  "format self fmt hash s = format_map fmt (format_env self fmt hash) s"

text \<open>\<^verbatim>\<open>Generator.path\<close>; \<open>path_default\<close> is the default value of its \<^verbatim>\<open>fmt\<close> parameter.\<close>

definition path_default :: string where
  "path_default = ''generated_{incr}''"

definition path ::
  "generator \<Rightarrow> string \<Rightarrow> hash_arg option \<Rightarrow> state \<Rightarrow> (error + string) \<times> state" where
  "path self fmt hash s =
     (let template =
        (case meta (ctx self) ''generate_path'' of None \<Rightarrow> ''{namespace}:{path}'' | Some t \<Rightarrow> t)
      in format self (template @ fmt) hash s)"

text \<open>
  A \<^verbatim>\<open>hash\<close> argument whose evaluation leaves every registry as it is: no argument, a value,
  or a callable that does not touch the registries.
\<close>

definition keeps_registries :: "hash_arg option \<Rightarrow> bool" where
  "keeps_registries hash =
     (case hash of
        Some (HCall f) \<Rightarrow> (\<forall>s. registries (snd (f s)) = registries s)
      | _ \<Rightarrow> True)"

section \<open>Registering artifacts\<close>

text \<open>
  \<^verbatim>\<open>Generator.__call__\<close>. A positional argument is a template string or a file instance. A
  file instance has a type (its class, by name) and a content.
\<close>

record namespace_file =
  ftype :: string
  content :: artifact

datatype arg = AStr string | AFile namespace_file

text \<open>
  Modelled from the spec: \<^verbatim>\<open>ensure_serialized\<close> (of \<^verbatim>\<open>beet.library\<close>) is not part of the
  sources; by section 4.3 it "serializes the artifact".
\<close>

fun ensure_serialized :: "artifact \<Rightarrow> string" where
  "ensure_serialized (Plain v) = v"
| "ensure_serialized (ListLike xs) = concat (map (\<lambda>x. x @ [CHR 0x0A]) xs)"

text \<open>
  The first statement of \<^verbatim>\<open>__call__\<close>: which argument is the file instance and which the
  template. \<^verbatim>\<open>args[0]\<close> on an empty tuple raises \<^verbatim>\<open>IndexError\<close>.
\<close>

definition call_arguments :: "arg list \<Rightarrow> namespace_file option \<Rightarrow> error + (arg \<times> arg option)" where
  "call_arguments args render =
     (case render of
        Some r \<Rightarrow> Inr (AFile r, (case args of [] \<Rightarrow> None | a # _ \<Rightarrow> Some a))
      | None \<Rightarrow>
          if length args = 2 then Inr (args ! 1, Some (args ! 0))
          else (case args of [] \<Rightarrow> Inl IndexError | a # _ \<Rightarrow> Inr (a, None)))"

text \<open>
  The rest of \<^verbatim>\<open>__call__\<close>. A template that is not a string cannot be appended to the path
  template (\<^verbatim>\<open>TypeError\<close>). What the absent container does with an instance that is not a
  file, or with a file type that neither field map knows, is \<open>Unsupported\<close>. With
  \<^verbatim>\<open>render\<close>, the renderer works on the file that the container now holds.
\<close>

definition call ::
  "generator \<Rightarrow> arg list \<Rightarrow> namespace_file option \<Rightarrow> hash_arg option \<Rightarrow> state \<Rightarrow> (error + string) \<times> state"
  where
  "call self args render hash s =
     (case call_arguments args render of
        Inl e \<Rightarrow> (Inl e, s)
      | Inr (AStr _, fmt) \<Rightarrow> (Inl Unsupported, s)
      | Inr (AFile file_instance, fmt) \<Rightarrow>
          (let hash' =
                 (case (hash, render) of
                    (None, None) \<Rightarrow>
                      Some (HCall (\<lambda>s. (ensure_serialized (content file_instance), s)))
                  | _ \<Rightarrow> hash);
               file_type = ftype file_instance;
               named =
                 (case fmt of
                    None \<Rightarrow> path (getitem self (Cls file_type)) path_default hash' s
                  | Some (AFile _) \<Rightarrow> (Inl TypeError, s)
                  | Some (AStr f) \<Rightarrow>
                      if f \<noteq> [] then path (getitem self (Cls file_type)) f hash' s
                      else path (getitem self (Cls file_type)) path_default hash' s)
           in case named of
                (Inl e, s1) \<Rightarrow> (Inl e, s1)
              | (Inr key, s1) \<Rightarrow>
                  (case data_field_map (ctx self) file_type of
                     Some render_group \<Rightarrow>
                       (let stored =
                              (case render of
                                 None \<Rightarrow> content file_instance
                               | Some _ \<Rightarrow> render_file (ctx self) key render_group (content file_instance))
                        in (Inr key,
                            s1\<lparr>dpacks := (dpacks s1)
                                 (data self := (dpacks s1 (data self))((file_type, key) \<mapsto> stored))\<rparr>))
                   | None \<Rightarrow>
                       (case assets_field_map (ctx self) file_type of
                          None \<Rightarrow> (Inl Unsupported, s1)
                        | Some render_group \<Rightarrow>
                            (let stored =
                                   (case render of
                                      None \<Rightarrow> content file_instance
                                    | Some _ \<Rightarrow>
                                        render_file (ctx self) key render_group (content file_instance))
                             in (Inr key,
                                 s1\<lparr>rpacks := (rpacks s1)
                                      (assets self :=
                                         (rpacks s1 (assets self))((file_type, key) \<mapsto> stored))\<rparr>))))))"

section \<open>Drafts\<close>

text \<open>
  \<^verbatim>\<open>Generator.draft\<close>: \<^verbatim>\<open>ResourcePack()\<close> and \<^verbatim>\<open>DataPack()\<close> are new, empty objects, at the
  next unused address of their stores.
\<close>

definition draft :: "generator \<Rightarrow> state \<Rightarrow> generator \<times> state" where
  "draft self s =
     (\<lparr> ctx = ctx self,
        scope = scope self,
        registry = registry self,
        assets = next_ref s,
        data = next_ref s,
        parent_assets = assets self,
        parent_data = data self \<rparr>,
      s\<lparr>rpacks := (rpacks s)(next_ref s := Map.empty),
        dpacks := (dpacks s)(next_ref s := Map.empty),
        next_ref := Suc (next_ref s)\<rparr>)"

text \<open>\<^verbatim>\<open>Draft.apply\<close>.\<close>

definition apply_draft :: "generator \<Rightarrow> state \<Rightarrow> state" where
  "apply_draft self s =
     (let s1 =
        (if assets self \<noteq> parent_assets self
         then s\<lparr>rpacks := (rpacks s)
                (parent_assets self :=
                   merge_pack (rpacks s (parent_assets self)) (rpacks s (assets self)))\<rparr>
         else s)
      in if data self \<noteq> parent_data self
         then s1\<lparr>dpacks := (dpacks s1)
                (parent_data self :=
                   merge_pack (dpacks s1 (parent_data self)) (dpacks s1 (data self)))\<rparr>
         else s1)"

section \<open>The cache-backed draft\<close>

text \<open>
  \<^verbatim>\<open>Draft.cache\<close> is a Python generator function. The generator object is modelled by its
  resumption point: \<open>Start\<close> before the first \<^verbatim>\<open>next\<close>, \<open>Suspended\<close> at the \<^verbatim>\<open>yield\<close>,
  \<open>Finished\<close> after it returned. One call of \<open>cache\<close> below is one \<^verbatim>\<open>next\<close> on the
  generator object: it runs the body from the resumption point to the next \<^verbatim>\<open>yield\<close>
  (\<open>Yield\<close>) or to the end (\<open>StopIteration\<close>).
\<close>

datatype phase = Start | Suspended | Finished

datatype signal = Yield generator | StopIteration

definition zip_suffix :: "bool \<Rightarrow> string" where
  "zip_suffix zipped = (if zipped then ''.zip'' else [])"

definition cached_resource_pack :: "bool \<Rightarrow> string" where
  "cached_resource_pack zipped = ''draft_resource_pack'' @ zip_suffix zipped"

definition cached_data_pack :: "bool \<Rightarrow> string" where
  "cached_data_pack zipped = ''draft_data_pack'' @ zip_suffix zipped"

text \<open>The f-string \<^verbatim>\<open>f"{key} {zipped=}"\<close>.\<close>

definition effective_key :: "string \<Rightarrow> bool \<Rightarrow> string" where
  "effective_key key zipped = key @ '' zipped='' @ (if zipped then ''True'' else ''False'')"

text \<open>
  The two \<^verbatim>\<open>load\<close> statements of the hit branch; the two guarded \<^verbatim>\<open>save\<close> statements after
  the \<^verbatim>\<open>yield\<close> (a container is true when it is not empty); and those followed by the
  assignment of \<^verbatim>\<open>cache.json["draft_key"]\<close>.
\<close>

definition load_draft :: "generator \<Rightarrow> bucket \<Rightarrow> bool \<Rightarrow> state \<Rightarrow> state" where
  "load_draft self b zipped s =
     (let s1 = s\<lparr>rpacks := (rpacks s)
                  (assets self :=
                     load_pack (rpacks s (assets self)) (directory b (cached_resource_pack zipped)))\<rparr>
      in s1\<lparr>dpacks := (dpacks s1)
               (data self :=
                  load_pack (dpacks s1 (data self)) (directory b (cached_data_pack zipped)))\<rparr>)"

definition save_draft :: "generator \<Rightarrow> bool \<Rightarrow> state \<Rightarrow> bucket \<Rightarrow> bucket" where
  "save_draft self zipped s b =
     (let b1 =
        (if rpacks s (assets self) \<noteq> Map.empty
         then b\<lparr>directory := (directory b)(cached_resource_pack zipped \<mapsto> rpacks s (assets self))\<rparr>
         else b)
      in if dpacks s (data self) \<noteq> Map.empty
         then b1\<lparr>directory := (directory b1)(cached_data_pack zipped \<mapsto> dpacks s (data self))\<rparr>
         else b1)"

definition store_draft :: "generator \<Rightarrow> string \<Rightarrow> string \<Rightarrow> bool \<Rightarrow> state \<Rightarrow> state" where
  "store_draft self name key zipped s =
     (let b = save_draft self zipped s (cache_store s name)
      in s\<lparr>cache_store := (cache_store s)
             (name := b\<lparr>json := (json b)(''draft_key'' \<mapsto> effective_key key zipped)\<rparr>)\<rparr>)"

definition cache ::
  "generator \<Rightarrow> string \<Rightarrow> string \<Rightarrow> bool \<Rightarrow> bool \<Rightarrow> phase \<Rightarrow> state \<Rightarrow> signal \<times> phase \<times> state"
  where
  "cache self name key zipped apply_flag ph s =
     (case ph of
        Start \<Rightarrow>
          if json (cache_store s name) ''draft_key'' = Some (effective_key key zipped)
          then (let s1 = load_draft self (cache_store s name) zipped s
                in (StopIteration, Finished, if apply_flag then apply_draft self s1 else s1))
          else (Yield self, Suspended, s)
      | Suspended \<Rightarrow>
          (let s1 = store_draft self name key zipped s
           in (StopIteration, Finished, if apply_flag then apply_draft self s1 else s1))
      | Finished \<Rightarrow> (StopIteration, Finished, s))"

text \<open>
  The caller's loop \<^verbatim>\<open>for draft in self.cache(...): body(draft)\<close>, from resumption point
  \<open>ph\<close>: the number of times the body ran, the exception that ended the loop if any, and the
  store. A body that raises ends the loop, and the suspended generator is not resumed.
\<close>

fun rank :: "phase \<Rightarrow> nat" where
  "rank Start = 2"
| "rank Suspended = 1"
| "rank Finished = 0"

function for_cache ::
  "generator \<Rightarrow> string \<Rightarrow> string \<Rightarrow> bool \<Rightarrow> bool \<Rightarrow> (generator \<Rightarrow> state \<Rightarrow> error option \<times> state) \<Rightarrow>
   phase \<Rightarrow> state \<Rightarrow> nat \<times> error option \<times> state" where
  "for_cache self name key zipped apply_flag body ph s =
     (case cache self name key zipped apply_flag ph s of
        (StopIteration, ph', s1) \<Rightarrow> (0, None, s1)
      | (Yield d, ph', s1) \<Rightarrow>
          (case body d s1 of
             (Some e, s2) \<Rightarrow> (1, Some e, s2)
           | (None, s2) \<Rightarrow>
               (case for_cache self name key zipped apply_flag body ph' s2 of
                  (n, r, s3) \<Rightarrow> (Suc n, r, s3))))"
  by pat_completeness auto
termination
proof (relation "measure (\<lambda>(self, name, key, zipped, apply_flag, body, ph, s). rank ph)")
  show "wf (measure (\<lambda>(self, name, key, zipped, apply_flag, body, ph, s). rank ph))"
    by simp
next
  fix self name key zipped apply_flag body ph s x1 x2 x1a x2a x2b x1b ya yb
  assume "(x1, x2) = cache self name key zipped apply_flag ph s" "x1 = Yield x2b"
    and "(x1a, x2a) = x2"
  then show "((self, name, key, zipped, apply_flag, body, x1a, ya), self, name, key, zipped, apply_flag, body, ph, s)
      \<in> measure (\<lambda>(self, name, key, zipped, apply_flag, body, ph, s). rank ph)"
    by (cases ph) (auto simp: cache_def Let_def split: if_splits)
qed

declare for_cache.simps [simp del]

section \<open>Pushing a generator into the root\<close>

text \<open>
  \<^verbatim>\<open>Generator.push\<close>, a context manager, used as \<^verbatim>\<open>with self.push(): body\<close>. The \<^verbatim>\<open>finally\<close>
  clause runs whether the body returns or raises; the exception, if any, is passed on.
\<close>

definition push :: "generator \<Rightarrow> (state \<Rightarrow> error option \<times> state) \<Rightarrow> state \<Rightarrow> error option \<times> state"
  where
  "push self body s =
     (let previous_scope = scope (root s);
          previous_assets = assets (root s);
          previous_data = data (root s);
          previous_parent_assets = parent_assets (root s);
          previous_parent_data = parent_data (root s);
          s1 = s\<lparr>root := (root s)\<lparr>scope := scope self,
                                   assets := assets self,
                                   data := data self,
                                   parent_assets := parent_assets self,
                                   parent_data := parent_data self\<rparr>\<rparr>
      in case body s1 of
           (result, s2) \<Rightarrow>
             (result,
              s2\<lparr>root := (root s2)\<lparr>scope := previous_scope,
                                    assets := previous_assets,
                                    data := previous_data,
                                    parent_assets := previous_parent_assets,
                                    parent_data := previous_parent_data\<rparr>\<rparr>))"

section \<open>A concrete build\<close>

text \<open>
  A project \<^verbatim>\<open>demo\<close> whose meta sets \<^verbatim>\<open>generate_namespace\<close> to \<^verbatim>\<open>ns\<close>, with a toy digest, two
  data-pack file types and one resource-pack file type; its root generator has the
  registry at address 0, its own containers at address 0 and its parent containers at
  address 1, all empty; no cache bucket holds anything, and no generator object other than
  the root exists.
\<close>

definition example_context :: beet_context where
  "example_context =
     \<lparr> project_id = ''demo'',
       meta = [''generate_namespace'' \<mapsto> ''ns''],
       stable_hash = (\<lambda>v short. if short then take 4 (rev v) else rev v),
       data_field_map = [''Function'' \<mapsto> ''functions'', ''Tag'' \<mapsto> ''tags''],
       assets_field_map = [''Language'' \<mapsto> ''languages''],
       render_file = (\<lambda>render_path render_group a. a) \<rparr>"

definition example_root :: generator where
  "example_root =
     \<lparr> ctx = example_context, scope = [], registry = 0,
       assets = 0, data = 0, parent_assets = 1, parent_data = 1 \<rparr>"

definition example_state :: state where
  "example_state =
     \<lparr> registries = (\<lambda>_. Map.empty),
       rpacks = (\<lambda>_. Map.empty),
       dpacks = (\<lambda>_. Map.empty),
       next_ref = 2,
       root = example_root,
       cache_store = (\<lambda>_. \<lparr> json = Map.empty, directory = Map.empty \<rparr>),
       generators = (\<lambda>_. example_root),
       next_generator = 0 \<rparr>"

text \<open>
  A draft of the root generator; a body that registers a function file, and one that
  registers the function file and then raises; and the store in which the bucket
  \<^verbatim>\<open>mycache\<close> holds the snapshots of an earlier run under the key \<^verbatim>\<open>v1\<close>.
\<close>

definition example_draft :: generator where
  "example_draft = fst (draft example_root example_state)"

definition drafted_state :: state where
  "drafted_state = snd (draft example_root example_state)"

definition register_function :: "generator \<Rightarrow> state \<Rightarrow> error option \<times> state" where
  "register_function d s =
     (case call d [AFile \<lparr> ftype = ''Function'', content = Plain ''say hi'' \<rparr>] None None s of
        (Inl e, s') \<Rightarrow> (Some e, s')
      | (Inr key, s') \<Rightarrow> (None, s'))"

definition aborting_body :: "generator \<Rightarrow> state \<Rightarrow> error option \<times> state" where
  "aborting_body d s = (Some (Raised ''abort''), snd (register_function d s))"

definition cached_state :: state where
  "cached_state =
     drafted_state\<lparr>cache_store := (cache_store drafted_state)
       (''mycache'' :=
          \<lparr> json = [''draft_key'' \<mapsto> ''v1 zipped=False''],
            directory =
              [''draft_resource_pack'' \<mapsto> [(''Language'', ''minecraft:en_us'') \<mapsto> Plain ''hello''],
               ''draft_data_pack'' \<mapsto> [(''Function'', ''ns:generated_0'') \<mapsto> Plain ''say hi'']] \<rparr>)\<rparr>"

section \<open>Properties of the counters\<close>


lemma get_increment_same:
  "registry_get (registries (snd (get_increment g key s)) (registry g)) (increment_key g key)
     = registry_get (registries s (registry g)) (increment_key g key) + 1"
  by (simp add: get_increment_def Let_def registry_get_def)


lemma length_get_increments: "length (fst (get_increments calls s)) = length calls"
  by (induction calls arbitrary: s) (auto simp: split_beta Let_def)




section \<open>Properties of paths\<close>

lemma lex_default_path:
  "lex ''{namespace}:{path}generated_{incr}'' =
     [Field ''namespace'', Lit CHR '':'', Field ''path'',
      Lit CHR ''g'', Lit CHR ''e'', Lit CHR ''n'', Lit CHR ''e'', Lit CHR ''r'',
      Lit CHR ''a'', Lit CHR ''t'', Lit CHR ''e'', Lit CHR ''d'', Lit CHR ''_'',
      Field ''incr'']"
  by (simp add: field_token_def)

lemma str_int_0: "str_int 0 = ''0''"
  by (simp add: str_int_def str_nat.simps digit_char_def)

lemma str_int_1: "str_int 1 = ''1''"
  by (simp add: str_int_def str_nat.simps digit_char_def)

lemma path_default_value:
  assumes "meta (ctx g) ''generate_path'' = None"
    and "meta (ctx g) ''generate_prefix'' = None"
    and "scope g = [Str a, Str b]" "a \<noteq> []" "b \<noteq> []"
  shows "path g path_default None s =
     (Inr ((case meta (ctx g) ''generate_namespace'' of None \<Rightarrow> project_id (ctx g) | Some v \<Rightarrow> v)
           @ '':'' @ a @ ''/'' @ b @ ''/'' @ ''generated_''
           @ str_int (fst (get_increment g [Str ''{namespace}:{path}generated_{incr}''] s))),
      snd (get_increment g [Str ''{namespace}:{path}generated_{incr}''] s))"
  using assms
  by (simp add: path_def path_default_def format_def format_map_def lex_default_path
      format_env_def get_prefix_def field_token_def split_beta)

text \<open>
  C6. A generator with scope \<^verbatim>\<open>("a", "b")\<close> and namespace \<^verbatim>\<open>ns\<close> (from \<^verbatim>\<open>generate_namespace\<close>,
  or else the project id), in a context whose meta sets neither \<^verbatim>\<open>generate_path\<close> nor
  \<^verbatim>\<open>generate_prefix\<close>, and whose registry is empty: the first \<^verbatim>\<open>path()\<close> returns
  \<^verbatim>\<open>ns:a/b/generated_0\<close>, the second, in the store the first one left, \<^verbatim>\<open>ns:a/b/generated_1\<close>.
\<close>

theorem path_default_scope_a_b:
  assumes "meta (ctx g) ''generate_path'' = None"
    and "meta (ctx g) ''generate_prefix'' = None"
    and "(case meta (ctx g) ''generate_namespace'' of None \<Rightarrow> project_id (ctx g) | Some v \<Rightarrow> v) = ''ns''"
    and "scope g = [Str ''a'', Str ''b'']"
    and "registries s (registry g) = Map.empty"
  shows "fst (path g path_default None s) = Inr ''ns:a/b/generated_0''
       \<and> fst (path g path_default None (snd (path g path_default None s))) = Inr ''ns:a/b/generated_1''"
proof -
  let ?k = "[Str ''{namespace}:{path}generated_{incr}'']"
  have first: "fst (get_increment g ?k s) = 0"
    using assms(5) by (simp add: get_increment_def Let_def registry_get_def)
  have second: "fst (get_increment g ?k (snd (get_increment g ?k s))) = 1"
    using assms(5) by (simp add: get_increment_def Let_def registry_get_def)
  show ?thesis
    using assms(3) first second
    by (simp add: path_default_value [OF assms(1,2,4)] str_int_0 str_int_1)
qed

theorem path_default_scope_a_b_witness:
  "fst (path (getitem (getitem example_root (Str ''a'')) (Str ''b'')) path_default None example_state)
     = Inr ''ns:a/b/generated_0''
   \<and> fst (path (getitem (getitem example_root (Str ''a'')) (Str ''b'')) path_default None
        (snd (path (getitem (getitem example_root (Str ''a'')) (Str ''b'')) path_default None
               example_state)))
     = Inr ''ns:a/b/generated_1''"
  using path_default_scope_a_b
    [of "getitem (getitem example_root (Str ''a'')) (Str ''b'')" example_state]
  by (simp add: getitem_def example_root_def example_context_def example_state_def)

section \<open>Properties of scope extension\<close>

lemma deref_after_allocation:
  "allocated s other \<Longrightarrow>
   deref (s\<lparr>generators := (generators s)(next_generator s := g),
            next_generator := Suc (next_generator s)\<rparr>) other
     = deref s other"
  by (cases other) auto

lemma allocated_after_allocation:
  "allocated s other \<Longrightarrow>
   allocated (s\<lparr>generators := (generators s)(next_generator s := g),
                next_generator := Suc (next_generator s)\<rparr>) other"
  by (cases other) auto

text \<open>
  C7. For a receiver that exists in the store, \<^verbatim>\<open>self[key]\<close> returns a reference to a new
  object: one that did not exist before, so not the receiver. Its scope is the receiver's
  scope with \<open>key\<close> appended, and its registry and four containers are the very objects of
  the receiver (the same addresses), in the same context. The call changes nothing else:
  the receiver and every other generator object that existed have the fields they had, and
  the registries, the containers, the cache and the root generator are as they were. The
  registry is shared, not copied: a counter that the child increments is one higher in the
  registry of the receiver.
\<close>

theorem getitem_extends_scope:
  "allocated s self \<Longrightarrow>
   (let child = fst (getitem_object self key s);
        s' = snd (getitem_object self key s)
    in child \<noteq> self
     \<and> \<not> allocated s child
     \<and> allocated s' child
     \<and> scope (deref s' child) = scope (deref s self) @ [key]
     \<and> registry (deref s' child) = registry (deref s self)
     \<and> assets (deref s' child) = assets (deref s self)
     \<and> data (deref s' child) = data (deref s self)
     \<and> parent_assets (deref s' child) = parent_assets (deref s self)
     \<and> parent_data (deref s' child) = parent_data (deref s self)
     \<and> ctx (deref s' child) = ctx (deref s self)
     \<and> deref s' self = deref s self
     \<and> (\<forall>other. allocated s other \<longrightarrow> allocated s' other \<and> deref s' other = deref s other)
     \<and> registries s' = registries s
     \<and> rpacks s' = rpacks s
     \<and> dpacks s' = dpacks s
     \<and> next_ref s' = next_ref s
     \<and> cache_store s' = cache_store s
     \<and> root s' = root s
     \<and> registry_get
           (registries (snd (get_increment (deref s' child) ks s')) (registry (deref s self)))
           (increment_key (deref s' child) ks)
         = registry_get (registries s (registry (deref s self)))
             (increment_key (deref s' child) ks) + 1)"
proof -
  assume exists: "allocated s self"
  let ?child = "fst (getitem_object self key s)"
  let ?s' = "snd (getitem_object self key s)"
  have fresh: "\<not> allocated s ?child" "allocated ?s' ?child"
    by (simp_all add: getitem_object_def)
  with exists have apart: "?child \<noteq> self"
    by auto
  have made: "deref ?s' ?child = getitem (deref s self) key"
    by (simp add: getitem_object_def)
  have kept: "\<And>other. allocated s other \<Longrightarrow>
      allocated ?s' other \<and> deref ?s' other = deref s other"
    by (simp add: getitem_object_def deref_after_allocation allocated_after_allocation)
  have frame: "registries ?s' = registries s" "rpacks ?s' = rpacks s" "dpacks ?s' = dpacks s"
    "next_ref ?s' = next_ref s" "cache_store ?s' = cache_store s" "root ?s' = root s"
    by (simp_all add: getitem_object_def)
  have shared: "registry_get
        (registries (snd (get_increment (deref ?s' ?child) ks ?s')) (registry (deref s self)))
        (increment_key (deref ?s' ?child) ks)
      = registry_get (registries s (registry (deref s self)))
          (increment_key (deref ?s' ?child) ks) + 1"
    using get_increment_same [of "deref ?s' ?child" ks ?s']
    by (simp add: made frame) (simp add: getitem_def)
  show ?thesis
    unfolding Let_def
    using fresh apart kept [OF exists] kept frame shared
    by (simp add: made) (simp add: getitem_def)
qed

theorem getitem_extends_scope_witness:
  "allocated (snd (getitem_object Root (Str ''a'') example_state)) (Obj 0)
   \<and> fst (getitem_object (Obj 0) (Str ''b'') (snd (getitem_object Root (Str ''a'') example_state)))
       = Obj 1
   \<and> scope (deref
         (snd (getitem_object (Obj 0) (Str ''b'')
                 (snd (getitem_object Root (Str ''a'') example_state))))
         (Obj 1))
       = [Str ''a'', Str ''b'']
   \<and> scope (deref
         (snd (getitem_object (Obj 0) (Str ''b'')
                 (snd (getitem_object Root (Str ''a'') example_state))))
         (Obj 0))
       = [Str ''a'']
   \<and> registry (deref
         (snd (getitem_object (Obj 0) (Str ''b'')
                 (snd (getitem_object Root (Str ''a'') example_state))))
         (Obj 1))
       = registry example_root
   \<and> root (snd (getitem_object (Obj 0) (Str ''b'')
                 (snd (getitem_object Root (Str ''a'') example_state))))
       = example_root"
proof -
  define s1 where "s1 = snd (getitem_object Root (Str ''a'') example_state)"
  have exists: "allocated s1 (Obj 0)"
    by (simp add: s1_def getitem_object_def example_state_def)
  have before: "deref s1 (Obj 0) = getitem example_root (Str ''a'')" "root s1 = example_root"
    by (simp_all add: s1_def getitem_object_def example_state_def)
  have child: "fst (getitem_object (Obj 0) (Str ''b'') s1) = Obj 1"
    by (simp add: s1_def getitem_object_def example_state_def)
  note step = getitem_extends_scope [OF exists, of "Str ''b''" "[]", unfolded Let_def child]
  from step have
    "scope (deref (snd (getitem_object (Obj 0) (Str ''b'') s1)) (Obj 1))
       = scope (deref s1 (Obj 0)) @ [Str ''b'']"
    "deref (snd (getitem_object (Obj 0) (Str ''b'') s1)) (Obj 0) = deref s1 (Obj 0)"
    "registry (deref (snd (getitem_object (Obj 0) (Str ''b'') s1)) (Obj 1))
       = registry (deref s1 (Obj 0))"
    "root (snd (getitem_object (Obj 0) (Str ''b'') s1)) = root s1"
    by blast+
  with exists child before show ?thesis
    unfolding s1_def [symmetric]
    by (simp add: getitem_def example_root_def)
qed

section \<open>Properties of registration\<close>

text \<open>
  C8, as amended. \<^verbatim>\<open>__call__\<close> with no positional argument and no \<^verbatim>\<open>render\<close> fails with
  \<^verbatim>\<open>IndexError\<close>, raised by \<^verbatim>\<open>args[0]\<close>, whatever the \<^verbatim>\<open>hash\<close> argument, and leaves the
  store as it was.
\<close>

theorem call_without_arguments:
  "call g [] None hash s = (Inl IndexError, s)"
  by (simp add: call_def call_arguments_def)

text \<open>
  C8 as stated fails: on the root generator of the concrete build the error is
  \<open>IndexError\<close>, not \<open>InvalidArgument\<close>.
\<close>

theorem call_without_arguments_counterexample:
  "fst (call example_root [] None None example_state) = Inl IndexError
   \<and> fst (call example_root [] None None example_state) \<noteq> Inl InvalidArgument"
  by (simp add: call_def call_arguments_def)

section \<open>Properties of push\<close>

text \<open>
  C10. After \<^verbatim>\<open>with g.push(): body\<close>, for every body (one that returns or one that raises,
  and whatever it did to the store and to the root generator), the \<^verbatim>\<open>scope\<close>, \<^verbatim>\<open>assets\<close>,
  \<^verbatim>\<open>data\<close>, \<^verbatim>\<open>parent_assets\<close> and \<^verbatim>\<open>parent_data\<close> of the root generator are those of before
  the push. The body ran with the five fields of \<open>g\<close> in the root, and its outcome (the
  exception, if it raised) is the outcome of the whole statement.
\<close>

theorem push_restores_root:
  "scope (root (snd (push g body s))) = scope (root s)
   \<and> assets (root (snd (push g body s))) = assets (root s)
   \<and> data (root (snd (push g body s))) = data (root s)
   \<and> parent_assets (root (snd (push g body s))) = parent_assets (root s)
   \<and> parent_data (root (snd (push g body s))) = parent_data (root s)
   \<and> fst (push g body s)
       = fst (body (s\<lparr>root := (root s)\<lparr>scope := scope g,
                                            assets := assets g,
                                            data := data g,
                                            parent_assets := parent_assets g,
                                            parent_data := parent_data g\<rparr>\<rparr>))"
  by (simp add: push_def Let_def split_beta)

section \<open>Properties of format\<close>

lemma sublist_after: "sublist n cs \<Longrightarrow> sublist n (xs @ cs)"
  unfolding sublist_def by (metis append_assoc)

lemma field_token_name: "field_token name = Field n \<Longrightarrow> n = name"
  by (simp add: field_token_def split: if_splits)

lemma lex_fields_sublist:
  "Field n \<in> set (lex cs) \<Longrightarrow> sublist n cs"
  "Field n \<in> set (lex_field acc cs) \<Longrightarrow> sublist n (rev acc @ cs)"
proof (induction cs and acc cs arbitrary: n and n rule: lex_lex_field.induct)
  case 1
  then show ?case by simp
next
  case (2 c cs)
  then show ?case
    by (auto simp: sublist_Cons_right split: if_splits list.splits)
next
  case (3 acc)
  then show ?case by simp
next
  case (4 acc c cs)
  show ?case
  proof (cases "c = CHR ''}''")
    case True
    with 4 have "n = rev acc \<or> sublist n cs"
      by (auto dest: field_token_name field_token_name [OF sym])
    then show ?thesis
    proof
      assume "n = rev acc"
      then show ?thesis by simp
    next
      assume "sublist n cs"
      then have "sublist n ((rev acc @ [c]) @ cs)"
        by (rule sublist_after)
      then show ?thesis by simp
    qed
  next
    case False
    with 4 show ?thesis
      by (auto split: if_splits)
  qed
qed


lemma format_tokens_cong:
  "(\<And>n. Field n \<in> set ts \<Longrightarrow> env n = env' n) \<Longrightarrow>
   format_tokens env ts s = format_tokens env' ts s"
proof (induction ts arbitrary: s)
  case Nil
  then show ?case by simp
next
  case (Cons t ts)
  then have rest: "\<And>s. format_tokens env ts s = format_tokens env' ts s"
    by simp
  show ?case
  proof (cases t)
    case (Lit c)
    with rest show ?thesis by simp
  next
    case (Field n)
    with Cons.prems have "env n = env' n" by simp
    with Field show ?thesis
      by (simp add: rest split: option.splits prod.splits sum.splits)
  next
    case (Bad e)
    then show ?thesis by simp
  qed
qed

lemma format_tokens_registries:
  assumes "\<And>n v s. Field n \<in> set ts \<Longrightarrow> env n = Some v \<Longrightarrow>
             registries (snd (force v s)) = registries s"
  shows "registries (snd (format_tokens env ts s)) = registries s"
  using assms
proof (induction ts arbitrary: s)
  case Nil
  then show ?case by simp
next
  case (Cons t ts)
  have rest: "\<And>s. registries (snd (format_tokens env ts s)) = registries s"
    by (rule Cons.IH) (use Cons.prems in auto)
  show ?case
  proof (cases t)
    case (Lit c)
    with rest [of s] show ?thesis
      by (auto split: prod.splits sum.splits)
  next
    case (Field n)
    show ?thesis
    proof (cases "env n")
      case None
      with Field show ?thesis by simp
    next
      case (Some v)
      then have "registries (snd (force v s)) = registries s"
        using Cons.prems [of n v s] Field by simp
      with Field Some rest [of "snd (force v s)"] show ?thesis
        by (auto split: prod.splits sum.splits)
    qed
  next
    case (Bad e)
    then show ?thesis by simp
  qed
qed

lemma hash_value_registries:
  "keeps_registries (Some h) \<Longrightarrow>
   registries (snd (hash_value c h short s)) = registries s"
  by (cases h) (simp_all add: keeps_registries_def split_beta)

lemma format_env_registries:
  assumes "n \<noteq> ''incr''" and "keeps_registries hash" and "format_env g fmt hash n = Some v"
  shows "registries (snd (force v s)) = registries s"
proof (cases hash)
  case None
  with assms(1,3) show ?thesis
    by (auto simp: format_env_def split: if_splits)
next
  case (Some h)
  with assms show ?thesis
    by (auto simp: format_env_def hash_value_registries split: if_splits)
qed

lemma format_env_without_hash:
  "\<not> sublist ''hash'' n \<Longrightarrow> format_env g fmt hash n = format_env g fmt None n"
  by (cases hash) (auto simp: format_env_def sublist_code)

text \<open>
  C5. A replacement field named \<open>n\<close> needs the text \<open>n\<close> in the template. So a placeholder
  whose name does not occur in the template is never looked up, let alone evaluated: the
  call goes as it does with that placeholder taken out of the environment. When \<^verbatim>\<open>incr\<close>
  does not occur, \<^verbatim>\<open>get_increment\<close> is not called: the registries are left as they were
  (given a \<^verbatim>\<open>hash\<close> argument that does not itself change them). When \<^verbatim>\<open>hash\<close> does not
  occur (so neither \<^verbatim>\<open>{hash}\<close> nor \<^verbatim>\<open>{short_hash}\<close> does), the \<^verbatim>\<open>hash\<close> argument is never
  evaluated: result and store are those of the call without it, whatever effect calling
  it would have.
\<close>

theorem format_is_lazy:
  "(\<not> sublist n fmt \<longrightarrow>
      format g fmt hash s = format_map fmt ((format_env g fmt hash)(n := None)) s)
   \<and> (\<not> sublist ''incr'' fmt \<longrightarrow> keeps_registries hash \<longrightarrow>
      registries (snd (format g fmt hash s)) = registries s)
   \<and> (\<not> sublist ''hash'' fmt \<longrightarrow> format g fmt hash s = format g fmt None s)"
proof (intro conjI impI)
  assume absent: "\<not> sublist n fmt"
  have "\<And>m. Field m \<in> set (lex fmt) \<Longrightarrow>
          format_env g fmt hash m = ((format_env g fmt hash)(n := None)) m"
  proof -
    fix m
    assume "Field m \<in> set (lex fmt)"
    then have "sublist m fmt" by (rule lex_fields_sublist(1))
    with absent have "m \<noteq> n" by auto
    then show "format_env g fmt hash m = ((format_env g fmt hash)(n := None)) m"
      by simp
  qed
  then show "format g fmt hash s = format_map fmt ((format_env g fmt hash)(n := None)) s"
    unfolding format_def format_map_def by (rule format_tokens_cong)
next
  assume no_incr: "\<not> sublist ''incr'' fmt" and keeps: "keeps_registries hash"
  have "\<And>n v s. Field n \<in> set (lex fmt) \<Longrightarrow> format_env g fmt hash n = Some v \<Longrightarrow>
          registries (snd (force v s)) = registries s"
  proof -
    fix n v s
    assume f: "Field n \<in> set (lex fmt)" and v: "format_env g fmt hash n = Some v"
    from f have "sublist n fmt" by (rule lex_fields_sublist(1))
    with no_incr have "n \<noteq> ''incr''" by auto
    then show "registries (snd (force v s)) = registries s"
      using keeps v by (rule format_env_registries)
  qed
  then show "registries (snd (format g fmt hash s)) = registries s"
    unfolding format_def format_map_def by (rule format_tokens_registries)
next
  assume no_hash: "\<not> sublist ''hash'' fmt"
  have "\<And>n. Field n \<in> set (lex fmt) \<Longrightarrow> format_env g fmt hash n = format_env g fmt None n"
  proof -
    fix n
    assume "Field n \<in> set (lex fmt)"
    then have "sublist n fmt" by (rule lex_fields_sublist(1))
    with no_hash have "\<not> sublist ''hash'' n"
      using sublist_order.order.trans by blast
    then show "format_env g fmt hash n = format_env g fmt None n"
      by (rule format_env_without_hash)
  qed
  then show "format g fmt hash s = format g fmt None s"
    unfolding format_def format_map_def by (rule format_tokens_cong)
qed

theorem format_is_lazy_witness:
  "\<not> sublist ''incr'' ''{namespace}:{path}item''
   \<and> keeps_registries (Some (HCall (\<lambda>s. (''payload'', s\<lparr>next_ref := 0\<rparr>))))
   \<and> format example_root ''{namespace}:{path}item''
         (Some (HCall (\<lambda>s. (''payload'', s\<lparr>next_ref := 0\<rparr>)))) example_state
       = format_map ''{namespace}:{path}item''
           ((format_env example_root ''{namespace}:{path}item''
               (Some (HCall (\<lambda>s. (''payload'', s\<lparr>next_ref := 0\<rparr>)))))(''incr'' := None))
           example_state
   \<and> registries (snd (format example_root ''{namespace}:{path}item''
         (Some (HCall (\<lambda>s. (''payload'', s\<lparr>next_ref := 0\<rparr>)))) example_state))
       = registries example_state
   \<and> \<not> sublist ''hash'' ''{namespace}:{path}item''
   \<and> format example_root ''{namespace}:{path}item''
         (Some (HCall (\<lambda>s. (''payload'', s\<lparr>next_ref := 0\<rparr>)))) example_state
       = format example_root ''{namespace}:{path}item'' None example_state
   \<and> format example_root ''{namespace}:{path}item'' None example_state
       = (Inr ''ns:item'', example_state)"
proof -
  have a: "\<not> sublist ''incr'' ''{namespace}:{path}item''"
    by (simp add: sublist_code)
  have b: "\<not> sublist ''hash'' ''{namespace}:{path}item''"
    by (simp add: sublist_code)
  have c: "keeps_registries (Some (HCall (\<lambda>s. (''payload'', s\<lparr>next_ref := 0\<rparr>))))"
    by (simp add: keeps_registries_def)
  have d: "format example_root ''{namespace}:{path}item'' None example_state
       = (Inr ''ns:item'', example_state)"
    by (simp add: format_def format_map_def format_env_def field_token_def get_prefix_def
        example_root_def example_context_def)
  note lazy = format_is_lazy [of "''incr''" "''{namespace}:{path}item''" example_root
        "Some (HCall (\<lambda>s. (''payload'', s\<lparr>next_ref := 0\<rparr>)))" example_state]
  from lazy a have e: "format example_root ''{namespace}:{path}item''
         (Some (HCall (\<lambda>s. (''payload'', s\<lparr>next_ref := 0\<rparr>)))) example_state
       = format_map ''{namespace}:{path}item''
           ((format_env example_root ''{namespace}:{path}item''
               (Some (HCall (\<lambda>s. (''payload'', s\<lparr>next_ref := 0\<rparr>)))))(''incr'' := None))
           example_state"
    by blast
  from lazy a c have f: "registries (snd (format example_root ''{namespace}:{path}item''
         (Some (HCall (\<lambda>s. (''payload'', s\<lparr>next_ref := 0\<rparr>)))) example_state))
       = registries example_state"
    by blast
  from lazy b have g: "format example_root ''{namespace}:{path}item''
         (Some (HCall (\<lambda>s. (''payload'', s\<lparr>next_ref := 0\<rparr>)))) example_state
       = format example_root ''{namespace}:{path}item'' None example_state"
    by blast
  from a b c d e f g show ?thesis
    by (intro conjI)
qed

section \<open>The concrete build, evaluated\<close>

lemmas call_defs =
  call_def call_arguments_def path_def path_default_def format_def format_map_def
  format_env_def get_prefix_def getitem_def field_token_def get_increment_def
  increment_key_def registry_get_def str_int_def str_nat.simps digit_char_def

lemma example_draft_fields:
  "example_draft = \<lparr> ctx = example_context, scope = [], registry = 0,
       assets = 2, data = 2, parent_assets = 0, parent_data = 0 \<rparr>"
  by (simp add: example_draft_def draft_def example_root_def example_state_def)

lemma example_draft_data: "data example_draft = 2" "parent_data example_draft = 0"
  "assets example_draft = 2" "parent_assets example_draft = 0"
  by (simp_all add: example_draft_fields)

lemma drafted_state_fields:
  "drafted_state = \<lparr> registries = (\<lambda>_. Map.empty),
       rpacks = (\<lambda>_. Map.empty),
       dpacks = (\<lambda>_. Map.empty),
       next_ref = 3,
       root = example_root,
       cache_store = (\<lambda>_. \<lparr> json = Map.empty, directory = Map.empty \<rparr>),
       generators = (\<lambda>_. example_root),
       next_generator = 0 \<rparr>"
  by (simp add: drafted_state_def draft_def example_state_def fun_eq_iff)

lemma register_function_example:
  "register_function example_draft drafted_state =
     (None,
      \<lparr> registries = (\<lambda>_. Map.empty)
          (0 := [[Str ''demo'', Cls ''Function'', Str ''{namespace}:{path}generated_{incr}'']
                  \<mapsto> 1]),
        rpacks = (\<lambda>_. Map.empty),
        dpacks = (\<lambda>_. Map.empty)
          (2 := [(''Function'', ''ns:generated_0'') \<mapsto> Plain ''say hi'']),
        next_ref = 3,
        root = example_root,
        cache_store = (\<lambda>_. \<lparr> json = Map.empty, directory = Map.empty \<rparr>),
        generators = (\<lambda>_. example_root),
        next_generator = 0 \<rparr>)"
  by (simp add: register_function_def example_draft_fields drafted_state_fields call_defs
      example_context_def Let_def)

section \<open>Properties of the cache-backed draft\<close>

lemma for_cache_stop:
  "cache d name key zipped ap ph s = (StopIteration, ph', s1) \<Longrightarrow>
   for_cache d name key zipped ap body ph s = (0, None, s1)"
  by (simp add: for_cache.simps)

lemma cache_finished: "cache d name key zipped ap Finished s = (StopIteration, Finished, s)"
  by (simp add: cache_def)

lemma cache_suspended:
  "cache d name key zipped ap Suspended s =
     (StopIteration, Finished,
      if ap then apply_draft d (store_draft d name key zipped s)
      else store_draft d name key zipped s)"
  by (simp add: cache_def Let_def)

lemma cache_store_apply_draft: "cache_store (apply_draft d s) = cache_store s"
  by (simp add: apply_draft_def Let_def)

lemma apply_draft_keeps_own:
  "rpacks (apply_draft d s) (assets d) = rpacks s (assets d)"
  "dpacks (apply_draft d s) (data d) = dpacks s (data d)"
  by (simp_all add: apply_draft_def Let_def)

lemma cached_paths_differ: "cached_resource_pack zipped \<noteq> cached_data_pack zipped"
  by (simp add: cached_resource_pack_def cached_data_pack_def)

lemma load_pack_empty: "load_pack Map.empty (Some q) = q"
  by (simp add: load_pack_def)

lemma effective_key_flags_differ: "a @ '' zipped=True'' \<noteq> b @ '' zipped=False''"
proof
  assume "a @ '' zipped=True'' = b @ '' zipped=False''"
  then have "rev (a @ '' zipped=True'') = rev (b @ '' zipped=False'')"
    by (rule arg_cong)
  then show False by simp
qed

lemma effective_key_inject:
  "(effective_key key zipped = effective_key key' zipped') = (key = key' \<and> zipped = zipped')"
  using effective_key_flags_differ [of key key'] effective_key_flags_differ [of key' key]
  by (cases zipped; cases zipped') (auto simp: effective_key_def)

text \<open>
  C1. When the bucket's \<^verbatim>\<open>draft_key\<close> is the effective key, the first \<^verbatim>\<open>next\<close> on the generator
  ends it without a \<^verbatim>\<open>yield\<close>, so the caller's loop runs its body zero times, whatever the
  body is. The store it leaves is the one in which the two snapshots of the bucket were
  loaded into the draft's \<^verbatim>\<open>assets\<close> and \<^verbatim>\<open>data\<close> (for empty containers: exactly the
  snapshots), with \<^verbatim>\<open>apply()\<close> run after that when the flag is set and not run otherwise.
\<close>

theorem cache_hit_skips_body:
  assumes hit: "json (cache_store s name) ''draft_key'' = Some (effective_key key zipped)"
  shows "cache d name key zipped ap Start s
           = (StopIteration, Finished,
              if ap then apply_draft d (load_draft d (cache_store s name) zipped s)
              else load_draft d (cache_store s name) zipped s)
       \<and> for_cache d name key zipped ap body Start s
           = (0, None,
              if ap then apply_draft d (load_draft d (cache_store s name) zipped s)
              else load_draft d (cache_store s name) zipped s)
       \<and> rpacks (snd (snd (for_cache d name key zipped ap body Start s))) (assets d)
           = load_pack (rpacks s (assets d))
               (directory (cache_store s name) (cached_resource_pack zipped))
       \<and> dpacks (snd (snd (for_cache d name key zipped ap body Start s))) (data d)
           = load_pack (dpacks s (data d))
               (directory (cache_store s name) (cached_data_pack zipped))
       \<and> (rpacks s (assets d) = Map.empty \<longrightarrow>
            directory (cache_store s name) (cached_resource_pack zipped) = Some rp \<longrightarrow>
            rpacks (snd (snd (for_cache d name key zipped ap body Start s))) (assets d) = rp)
       \<and> (dpacks s (data d) = Map.empty \<longrightarrow>
            directory (cache_store s name) (cached_data_pack zipped) = Some dp \<longrightarrow>
            dpacks (snd (snd (for_cache d name key zipped ap body Start s))) (data d) = dp)"
proof -
  let ?loaded = "load_draft d (cache_store s name) zipped s"
  let ?final = "if ap then apply_draft d ?loaded else ?loaded"
  have first: "cache d name key zipped ap Start s = (StopIteration, Finished, ?final)"
    using hit by (simp add: cache_def Let_def)
  then have loop: "for_cache d name key zipped ap body Start s = (0, None, ?final)"
    by (rule for_cache_stop)
  have r: "rpacks ?final (assets d)
      = load_pack (rpacks s (assets d)) (directory (cache_store s name) (cached_resource_pack zipped))"
    by (simp add: apply_draft_keeps_own) (simp add: load_draft_def Let_def)
  have dd: "dpacks ?final (data d)
      = load_pack (dpacks s (data d)) (directory (cache_store s name) (cached_data_pack zipped))"
    by (simp add: apply_draft_keeps_own) (simp add: load_draft_def Let_def)
  show ?thesis
    unfolding loop snd_conv
    using first r dd by (simp add: load_pack_empty)
qed

text \<open>
  C2. When the bucket's \<^verbatim>\<open>draft_key\<close> is not the effective key, the first \<^verbatim>\<open>next\<close> yields the
  draft and changes nothing; the second, in the store \<open>s'\<close> that the body left, ends the
  generator, which is then finished in every store: the caller's loop runs its body exactly
  once. The resumption saves each
  container that is not empty at the bucket's path, \<^verbatim>\<open>draft_resource_pack\<close> or
  \<^verbatim>\<open>draft_data_pack\<close> with the suffix \<^verbatim>\<open>.zip\<close> when \<^verbatim>\<open>zipped\<close> is set (and leaves the path of an
  empty one as it was), stores the effective key under \<^verbatim>\<open>draft_key\<close>, and runs \<^verbatim>\<open>apply()\<close> when the flag is
  set and not otherwise. The key it stores is the caller's key followed by \<^verbatim>\<open> zipped=True\<close>
  or \<^verbatim>\<open> zipped=False\<close>, as the flag is. In the store it leaves, a later call with the same
  key and \<^verbatim>\<open>zipped\<close>, on any draft, ends without a \<^verbatim>\<open>yield\<close>: its body runs zero times; and a
  later call whose key or whose flag is another one yields again.
\<close>

theorem cache_miss_runs_body_once:
  assumes miss: "json (cache_store s name) ''draft_key'' \<noteq> Some (effective_key key zipped)"
    and body: "body d s = (None, s')"
  shows "cache d name key zipped ap Start s = (Yield d, Suspended, s)
       \<and> cache d name key zipped ap Suspended s'
           = (StopIteration, Finished,
              if ap then apply_draft d (store_draft d name key zipped s')
              else store_draft d name key zipped s')
       \<and> cache d name key zipped ap Finished s_end = (StopIteration, Finished, s_end)
       \<and> for_cache d name key zipped ap body Start s
           = (1, None,
              if ap then apply_draft d (store_draft d name key zipped s')
              else store_draft d name key zipped s')
       \<and> json (cache_store (store_draft d name key zipped s') name) ''draft_key''
           = Some (effective_key key zipped)
       \<and> json (cache_store (store_draft d name key zipped s') name) ''draft_key''
           = Some (key @ '' zipped='' @ (if zipped then ''True'' else ''False''))
       \<and> directory (cache_store (store_draft d name key zipped s') name)
             (cached_resource_pack zipped)
           = (if rpacks s' (assets d) \<noteq> Map.empty then Some (rpacks s' (assets d))
              else directory (cache_store s' name) (cached_resource_pack zipped))
       \<and> directory (cache_store (store_draft d name key zipped s') name)
             (cached_data_pack zipped)
           = (if dpacks s' (data d) \<noteq> Map.empty then Some (dpacks s' (data d))
              else directory (cache_store s' name) (cached_data_pack zipped))
       \<and> fst (cache d_next name key zipped ap_next Start
                (snd (snd (for_cache d name key zipped ap body Start s))))
           = StopIteration
       \<and> fst (for_cache d_next name key zipped ap_next body_next Start
                (snd (snd (for_cache d name key zipped ap body Start s))))
           = 0
       \<and> (key_other \<noteq> key \<or> zipped_other \<noteq> zipped \<longrightarrow>
            cache d_next name key_other zipped_other ap_next Start
              (snd (snd (for_cache d name key zipped ap body Start s)))
            = (Yield d_next, Suspended, snd (snd (for_cache d name key zipped ap body Start s))))
       \<and> cached_resource_pack zipped
           = ''draft_resource_pack'' @ (if zipped then ''.zip'' else [])
       \<and> cached_data_pack zipped = ''draft_data_pack'' @ (if zipped then ''.zip'' else [])"
proof -
  let ?stored = "store_draft d name key zipped s'"
  let ?final = "if ap then apply_draft d ?stored else ?stored"
  have first: "cache d name key zipped ap Start s = (Yield d, Suspended, s)"
    using miss by (simp add: cache_def)
  have second: "cache d name key zipped ap Suspended s' = (StopIteration, Finished, ?final)"
    by (rule cache_suspended)
  have rest: "for_cache d name key zipped ap body Suspended s' = (0, None, ?final)"
    using second by (rule for_cache_stop)
  have loop: "for_cache d name key zipped ap body Start s = (1, None, ?final)"
    by (subst for_cache.simps) (simp add: first body rest)
  have key_stored: "json (cache_store ?stored name) ''draft_key'' = Some (effective_key key zipped)"
    by (simp add: store_draft_def Let_def)
  have rp: "directory (cache_store ?stored name) (cached_resource_pack zipped)
      = (if rpacks s' (assets d) \<noteq> Map.empty then Some (rpacks s' (assets d))
         else directory (cache_store s' name) (cached_resource_pack zipped))"
    using cached_paths_differ [of zipped]
    by (simp add: store_draft_def save_draft_def Let_def)
  have dp: "directory (cache_store ?stored name) (cached_data_pack zipped)
      = (if dpacks s' (data d) \<noteq> Map.empty then Some (dpacks s' (data d))
         else directory (cache_store s' name) (cached_data_pack zipped))"
    using cached_paths_differ [of zipped]
    by (auto simp: store_draft_def save_draft_def Let_def)
  have key_final: "json (cache_store ?final name) ''draft_key'' = Some (effective_key key zipped)"
    using key_stored by (simp add: cache_store_apply_draft)
  then have again: "cache d_next name key zipped ap_next Start ?final
      = (StopIteration, Finished,
         if ap_next then apply_draft d_next (load_draft d_next (cache_store ?final name) zipped ?final)
         else load_draft d_next (cache_store ?final name) zipped ?final)"
    by (simp add: cache_def Let_def)
  then have again_loop: "fst (for_cache d_next name key zipped ap_next body_next Start ?final) = 0"
    using for_cache_stop [OF again, of body_next] by simp
  have key_text: "json (cache_store ?stored name) ''draft_key''
      = Some (key @ '' zipped='' @ (if zipped then ''True'' else ''False''))"
    using key_stored by (simp add: effective_key_def)
  have other: "key_other \<noteq> key \<or> zipped_other \<noteq> zipped \<longrightarrow>
      cache d_next name key_other zipped_other ap_next Start ?final
        = (Yield d_next, Suspended, ?final)"
  proof
    assume "key_other \<noteq> key \<or> zipped_other \<noteq> zipped"
    then have "effective_key key zipped \<noteq> effective_key key_other zipped_other"
      by (auto simp: effective_key_inject)
    with key_final
    have "json (cache_store ?final name) ''draft_key''
        \<noteq> Some (effective_key key_other zipped_other)"
      by simp
    then show "cache d_next name key_other zipped_other ap_next Start ?final
        = (Yield d_next, Suspended, ?final)"
      by (simp add: cache_def)
  qed
  show ?thesis
    unfolding loop snd_conv
    using first second key_stored key_text rp dp again again_loop other
    by (simp add: cache_finished) (simp add: cached_resource_pack_def cached_data_pack_def zip_suffix_def)
qed

text \<open>
  C9. On a miss the first \<^verbatim>\<open>next\<close> changes nothing, and when the body raises, the loop ends
  with that exception in the store \<open>s'\<close> the body left: the generator is not resumed,
  nothing is saved and \<^verbatim>\<open>draft_key\<close> is not assigned. A body that leaves the cache alone
  leaves it as it was before the call.
\<close>

theorem cache_miss_abort_keeps_bucket:
  assumes miss: "json (cache_store s name) ''draft_key'' \<noteq> Some (effective_key key zipped)"
    and body: "body d s = (Some e, s')"
  shows "cache d name key zipped ap Start s = (Yield d, Suspended, s)
       \<and> for_cache d name key zipped ap body Start s = (1, Some e, s')
       \<and> (cache_store s' = cache_store s \<longrightarrow>
            cache_store (snd (snd (for_cache d name key zipped ap body Start s))) = cache_store s)"
proof -
  have first: "cache d name key zipped ap Start s = (Yield d, Suspended, s)"
    using miss by (simp add: cache_def)
  have loop: "for_cache d name key zipped ap body Start s = (1, Some e, s')"
    by (subst for_cache.simps) (simp add: first body)
  from first loop show ?thesis by simp
qed

theorem cache_hit_skips_body_witness:
  "json (cache_store cached_state ''mycache'') ''draft_key'' = Some (effective_key ''v1'' False)
   \<and> for_cache example_draft ''mycache'' ''v1'' False True aborting_body Start cached_state
       = (0, None,
          apply_draft example_draft
            (load_draft example_draft (cache_store cached_state ''mycache'') False cached_state))
   \<and> rpacks cached_state (assets example_draft) = Map.empty
   \<and> dpacks cached_state (data example_draft) = Map.empty
   \<and> rpacks
         (snd (snd (for_cache example_draft ''mycache'' ''v1'' False True aborting_body Start
                      cached_state)))
         (assets example_draft)
       = [(''Language'', ''minecraft:en_us'') \<mapsto> Plain ''hello'']
   \<and> dpacks
         (snd (snd (for_cache example_draft ''mycache'' ''v1'' False True aborting_body Start
                      cached_state)))
         (data example_draft)
       = [(''Function'', ''ns:generated_0'') \<mapsto> Plain ''say hi'']"
proof -
  have hit: "json (cache_store cached_state ''mycache'') ''draft_key''
      = Some (effective_key ''v1'' False)"
    by (simp add: cached_state_def effective_key_def)
  have empty: "rpacks cached_state (assets example_draft) = Map.empty"
    "dpacks cached_state (data example_draft) = Map.empty"
    by (simp_all add: cached_state_def drafted_state_fields)
  have stored: "directory (cache_store cached_state ''mycache'') (cached_resource_pack False)
      = Some [(''Language'', ''minecraft:en_us'') \<mapsto> Plain ''hello'']"
    "directory (cache_store cached_state ''mycache'') (cached_data_pack False)
      = Some [(''Function'', ''ns:generated_0'') \<mapsto> Plain ''say hi'']"
    by (simp_all add: cached_state_def cached_resource_pack_def cached_data_pack_def
        zip_suffix_def)
  note run = cache_hit_skips_body [OF hit, of example_draft True aborting_body
        "[(''Language'', ''minecraft:en_us'') \<mapsto> Plain ''hello'']"
        "[(''Function'', ''ns:generated_0'') \<mapsto> Plain ''say hi'']"]
  from run empty stored have loaded:
    "rpacks
       (snd (snd (for_cache example_draft ''mycache'' ''v1'' False True aborting_body Start
                    cached_state)))
       (assets example_draft)
     = [(''Language'', ''minecraft:en_us'') \<mapsto> Plain ''hello'']"
    "dpacks
       (snd (snd (for_cache example_draft ''mycache'' ''v1'' False True aborting_body Start
                    cached_state)))
       (data example_draft)
     = [(''Function'', ''ns:generated_0'') \<mapsto> Plain ''say hi'']"
    by blast+
  from run have loop:
    "for_cache example_draft ''mycache'' ''v1'' False True aborting_body Start cached_state
       = (0, None,
          apply_draft example_draft
            (load_draft example_draft (cache_store cached_state ''mycache'') False cached_state))"
    by simp
  from hit empty loaded loop show ?thesis
    by (intro conjI)
qed

theorem cache_miss_abort_keeps_bucket_witness:
  "json (cache_store drafted_state ''mycache'') ''draft_key'' \<noteq> Some (effective_key ''v1'' False)
   \<and> fst (aborting_body example_draft drafted_state) = Some (Raised ''abort'')
   \<and> dpacks (snd (aborting_body example_draft drafted_state)) (data example_draft)
       = [(''Function'', ''ns:generated_0'') \<mapsto> Plain ''say hi'']
   \<and> for_cache example_draft ''mycache'' ''v1'' False True aborting_body Start drafted_state
       = (1, Some (Raised ''abort''), snd (aborting_body example_draft drafted_state))
   \<and> cache_store
         (snd (snd (for_cache example_draft ''mycache'' ''v1'' False True aborting_body Start
                      drafted_state)))
       = cache_store drafted_state"
proof -
  have miss: "json (cache_store drafted_state ''mycache'') ''draft_key''
      \<noteq> Some (effective_key ''v1'' False)"
    by (simp add: drafted_state_fields)
  have body: "aborting_body example_draft drafted_state
      = (Some (Raised ''abort''), snd (aborting_body example_draft drafted_state))"
    by (simp add: aborting_body_def)
  have same: "cache_store (snd (aborting_body example_draft drafted_state))
      = cache_store drafted_state"
    unfolding aborting_body_def register_function_example snd_conv
    by (simp add: drafted_state_fields)
  have staged: "dpacks (snd (aborting_body example_draft drafted_state)) (data example_draft)
      = [(''Function'', ''ns:generated_0'') \<mapsto> Plain ''say hi'']"
    unfolding aborting_body_def register_function_example snd_conv
    by (simp add: example_draft_data)
  show ?thesis
    using miss same staged
      cache_miss_abort_keeps_bucket
        [where body = aborting_body and d = example_draft and s = drafted_state
           and ap = True, OF miss body]
    by (simp add: aborting_body_def)
qed

theorem cache_miss_runs_body_once_witness:
  "json (cache_store drafted_state ''mycache'') ''draft_key'' \<noteq> Some (effective_key ''v1'' False)
   \<and> fst (register_function example_draft drafted_state) = None
   \<and> effective_key ''v1'' False = ''v1 zipped=False''
   \<and> fst (for_cache example_draft ''mycache'' ''v1'' False True register_function Start
             drafted_state) = 1
   \<and> json (cache_store
         (snd (snd (for_cache example_draft ''mycache'' ''v1'' False True register_function Start
                      drafted_state))) ''mycache'') ''draft_key''
       = Some ''v1 zipped=False''
   \<and> directory (cache_store
         (snd (snd (for_cache example_draft ''mycache'' ''v1'' False True register_function Start
                      drafted_state))) ''mycache'') ''draft_data_pack''
       = Some [(''Function'', ''ns:generated_0'') \<mapsto> Plain ''say hi'']
   \<and> directory (cache_store
         (snd (snd (for_cache example_draft ''mycache'' ''v1'' False True register_function Start
                      drafted_state))) ''mycache'') ''draft_resource_pack''
       = None
   \<and> dpacks
         (snd (snd (for_cache example_draft ''mycache'' ''v1'' False True register_function Start
                      drafted_state))) (parent_data example_draft)
       = [(''Function'', ''ns:generated_0'') \<mapsto> Plain ''say hi'']
   \<and> fst (for_cache example_draft ''mycache'' ''v1'' False False aborting_body Start
         (snd (snd (for_cache example_draft ''mycache'' ''v1'' False True register_function Start
                      drafted_state)))) = 0
   \<and> fst (cache example_draft ''mycache'' ''v1'' True False Start
         (snd (snd (for_cache example_draft ''mycache'' ''v1'' False True register_function Start
                      drafted_state)))) = Yield example_draft
   \<and> fst (cache example_draft ''mycache'' ''v2'' False False Start
         (snd (snd (for_cache example_draft ''mycache'' ''v1'' False True register_function Start
                      drafted_state)))) = Yield example_draft"
proof -
  define s' where "s' = snd (register_function example_draft drafted_state)"
  have miss: "json (cache_store drafted_state ''mycache'') ''draft_key''
      \<noteq> Some (effective_key ''v1'' False)"
    by (simp add: drafted_state_fields)
  have body: "register_function example_draft drafted_state = (None, s')"
    unfolding s'_def register_function_example by simp
  have key: "effective_key ''v1'' False = ''v1 zipped=False''"
    by (simp add: effective_key_def)
  have paths: "cached_resource_pack False = ''draft_resource_pack''"
    "cached_data_pack False = ''draft_data_pack''"
    by (simp_all add: cached_resource_pack_def cached_data_pack_def zip_suffix_def)
  have staged: "dpacks s' (data example_draft)
      = [(''Function'', ''ns:generated_0'') \<mapsto> Plain ''say hi'']"
    "rpacks s' (assets example_draft) = Map.empty"
    "directory (cache_store s' ''mycache'') ''draft_resource_pack'' = None"
    unfolding s'_def register_function_example snd_conv
    by (simp_all add: example_draft_data)
  have nonempty: "dpacks s' (data example_draft) \<noteq> Map.empty"
    unfolding staged by simp
  have applied: "dpacks (apply_draft example_draft
        (store_draft example_draft ''mycache'' ''v1'' False s')) (parent_data example_draft)
      = [(''Function'', ''ns:generated_0'') \<mapsto> Plain ''say hi'']"
    unfolding s'_def register_function_example snd_conv
    by (simp add: apply_draft_def store_draft_def Let_def example_draft_data merge_pack_def
        fun_eq_iff)
  note run = cache_miss_runs_body_once
    [where body = register_function and d = example_draft and s = drafted_state
       and ap = True and d_next = example_draft and ap_next = False
       and body_next = aborting_body and key_other = "''v1''" and zipped_other = True,
     OF miss body]
  note run_other = cache_miss_runs_body_once
    [where body = register_function and d = example_draft and s = drafted_state
       and ap = True and d_next = example_draft and ap_next = False
       and body_next = aborting_body and key_other = "''v2''" and zipped_other = False,
     OF miss body]
  from run have loop:
    "for_cache example_draft ''mycache'' ''v1'' False True register_function Start drafted_state
       = (1, None,
          apply_draft example_draft (store_draft example_draft ''mycache'' ''v1'' False s'))"
    by simp
  show ?thesis
    using miss body key paths staged nonempty applied run [unfolded loop snd_conv]
      run_other [unfolded loop snd_conv]
    by (simp add: cache_store_apply_draft loop)
qed

end
